theory Spec2Isabelle
  imports Complex_Main "HOL-Library.Sublist"
begin

section \<open>The hot-potato charm: the token and its forwarding\<close>

text \<open>
  The source is \<^verbatim>\<open>src/charm.py\<close>. The token is a Python dict with the five keys
  \<^verbatim>\<open>message\<close>, \<^verbatim>\<open>holder\<close>, \<^verbatim>\<open>times_passed\<close>, \<^verbatim>\<open>time_elapsed\<close> and \<^verbatim>\<open>timestamp\<close>;
  it is a record here. Python's unbounded integers are \<open>int\<close>. The two time fields and
  the delay are Python floats; they are real numbers here, so the rounding of IEEE
  doubles is not part of the model of \<^verbatim>\<open>forward\<close>: no statement below depends on a sum
  or a difference of times being exact, and the concrete inputs use values that doubles
  represent and add exactly.
\<close>

record token =
  message :: string
  holder :: string
  times_passed :: int
  time_elapsed :: real
  timestamp :: real

text \<open>
  \<^verbatim>\<open>ActiveStatus(msg)\<close> of the operator framework; \<^verbatim>\<open>ActiveStatus()\<close> has the empty
  message.
\<close>

datatype status = ActiveStatus string

text \<open>
  What \<^verbatim>\<open>forward\<close> does to the outside, in the order it does it: an assignment to
  \<^verbatim>\<open>unit.status\<close>, a \<^verbatim>\<open>time.sleep(delay)\<close>, and the \<^verbatim>\<open>logger.info\<close> of the token
  as it is after a hop.
\<close>

datatype event = SetStatus status | Sleep real | LogInfo token

text \<open>
  The exceptions of a call on a well-typed token: \<^verbatim>\<open>random.randint(0, len(peers)-1)\<close>
  raises \<^verbatim>\<open>ValueError\<close> on the empty range \<open>0..-1\<close>, and the interpreter raises
  \<^verbatim>\<open>RecursionError\<close> when a call would exceed its limit on the depth of nested calls.
\<close>

datatype error = ValueError | RecursionError

text \<open>
  The outcome of a call of \<^verbatim>\<open>forward\<close>: the value returned (\<^verbatim>\<open>None\<close> or the token) or
  the exception raised; the state of the caller's dict when the call ends (the dict is
  mutated in place); the events in order; and the number of activations of \<^verbatim>\<open>forward\<close>
  on the call stack at the deepest point (the call of line 63 runs in a frame of its
  own on top of its caller's: Python does not eliminate tail calls).
\<close>

record outcome =
  result :: "error + token option"
  final :: token
  events :: "event list"
  frames :: nat

subsection \<open>Formatting\<close>

text \<open>\<^verbatim>\<open>str\<close> of an integer, as an f-string field without a format spec prints it.\<close>

definition digit_char :: "nat \<Rightarrow> char" where
  "digit_char d = ''0123456789'' ! d"

fun str_nat :: "nat \<Rightarrow> string" where
  "str_nat n = (if n < 10 then [digit_char n] else str_nat (n div 10) @ [digit_char (n mod 10)])"

declare str_nat.simps [simp del]

definition str_int :: "int \<Rightarrow> string" where
  "str_int i = (if i < 0 then ''-'' @ str_nat (nat (- i)) else str_nat (nat i))"

text \<open>
  The format spec \<^verbatim>\<open>.2f\<close>: the value rounded to two decimals, halves to the even
  neighbour, a minus sign for every negative value (also one that rounds to zero).
\<close>

definition round_half_even :: "real \<Rightarrow> int" where
  "round_half_even y =
     (let f = \<lfloor>y\<rfloor>; d = y - of_int f
      in if d < 1 / 2 then f else if 1 / 2 < d then f + 1 else if even f then f else f + 1)"

definition fmt2 :: "real \<Rightarrow> string" where
  "fmt2 x =
     (let q = nat (round_half_even (\<bar>x\<bar> * 100))
      in (if x < 0 then ''-'' else '''') @ str_nat (q div 100) @ ''.'' @
         [digit_char (q mod 100 div 10), digit_char (q mod 10)])"

subsection \<open>Forward.forward\<close>

text \<open>Lines 34-35: the termination check.\<close>

definition limit_reached :: "token \<Rightarrow> string \<Rightarrow> int option \<Rightarrow> bool" where
  "limit_reached token name max_passes =
     (case max_passes of
        None \<Rightarrow> False
      | Some n \<Rightarrow> times_passed token = n \<and> holder token = name)"

text \<open>Lines 36-39 and 45-50: the two status messages.\<close>

definition completion_status :: "token \<Rightarrow> status" where
  "completion_status token =
     ActiveStatus (''Maximum passes reached. '' @
                   ''Time to completion is '' @ fmt2 (time_elapsed token) @ '' seconds.'')"

definition holding_status :: "token \<Rightarrow> status" where
  "holding_status token =
     ActiveStatus (''M: '' @ message token @ '', '' @
                   ''H: '' @ holder token @ '', '' @
                   ''P: '' @ str_int (times_passed token) @ '', '' @
                   ''T: '' @ fmt2 (time_elapsed token))"

text \<open>
  Lines 51-55: one hop. \<open>r\<close> is the draw of the random generator and \<open>now\<close> the reading
  of \<^verbatim>\<open>time.time()\<close>. \<^verbatim>\<open>randint(0, n-1)\<close> returns one of the \<open>n\<close> indices \<open>0..n-1\<close>; the
  draw \<open>r\<close> stands for the index \<open>r mod n\<close>, so that every draw is an index of the list and
  every index is some draw. \<open>hop\<close> is used on a non-empty peer list only.
\<close>

definition hop :: "token \<Rightarrow> string list \<Rightarrow> nat \<Rightarrow> real \<Rightarrow> token" where
  "hop token peers r now =
     (let token = token\<lparr>holder := peers ! (r mod length peers)\<rparr>;
          token = token\<lparr>times_passed := times_passed token + 1\<rparr>;
          token = token\<lparr>time_elapsed := time_elapsed token + (now - timestamp token)\<rparr>;
          token = token\<lparr>timestamp := now\<rparr>
      in token)"

text \<open>Lines 45-59: what a hop from \<open>token\<close> to \<open>token'\<close> does to the outside.\<close>

definition hop_events :: "token \<Rightarrow> real \<Rightarrow> token \<Rightarrow> event list" where
  "hop_events token delay token' =
     [SetStatus (holding_status token)] @
     (if delay > 0 then [Sleep delay] else []) @
     [SetStatus (ActiveStatus ''''), LogInfo token']"

text \<open>
  \<^verbatim>\<open>forward(token, peers, unit, delay=..., max_passes=...)\<close>, with \<open>name\<close> for
  \<^verbatim>\<open>unit.name\<close>. The random generator and the clock are the list \<open>env\<close>: its \<open>k\<close>-th
  element is the draw and the clock reading of the \<open>k\<close>-th hop of the call. A call
  that needs more hops than \<open>env\<close> has elements has no outcome on \<open>env\<close> (\<open>None\<close>);
  this is how a run that never ends shows: it has no outcome on any \<open>env\<close>.
\<close>

fun forward ::
  "(nat \<times> real) list \<Rightarrow> token \<Rightarrow> string list \<Rightarrow> string \<Rightarrow> real \<Rightarrow> int option \<Rightarrow> outcome option"
where
  "forward env token peers name delay max_passes =
     (if limit_reached token name max_passes then
        Some \<lparr>result = Inr None, final = token,
              events = [SetStatus (completion_status token)], frames = 1\<rparr>
      else if holder token \<noteq> name then
        Some \<lparr>result = Inr None, final = token, events = [], frames = 1\<rparr>
      else if peers = [] then
        Some \<lparr>result = Inl ValueError, final = token,
              events = [SetStatus (holding_status token)], frames = 1\<rparr>
      else
        (case env of
           [] \<Rightarrow> None
         | (r, now) # env' \<Rightarrow>
             (let token' = hop token peers r now
              in if holder token' = name then
                   (case forward env' token' peers name delay max_passes of
                      None \<Rightarrow> None
                    | Some out \<Rightarrow>
                        Some (out\<lparr>events := hop_events token delay token' @ events out,
                                  frames := Suc (frames out)\<rparr>))
                 else
                   Some \<lparr>result = Inr (Some token'), final = token',
                         events = hop_events token delay token', frames = 1\<rparr>)))"

declare forward.simps [simp del]

text \<open>
  The tokens that line 59 logs, in order: the state of the token after each hop of the
  call.
\<close>

fun logged :: "event list \<Rightarrow> token list" where
  "logged [] = []"
| "logged (LogInfo t # es) = t # logged es"
| "logged (e # es) = logged es"

text \<open>
  \<^verbatim>\<open>forward\<close> under the interpreter's limit on the depth of calls. \<open>limit\<close> is the number
  of nested activations of \<^verbatim>\<open>forward\<close> that the interpreter has room for when the call is
  made (with CPython's default \<^verbatim>\<open>sys.getrecursionlimit()\<close> of 1000 it is below 1000, since
  the caller's frames count too). A call that has no room raises \<^verbatim>\<open>RecursionError\<close>, which
  no frame of \<^verbatim>\<open>forward\<close> catches; otherwise the call runs the body of \<^verbatim>\<open>forward\<close> with
  one activation less left for the call of line 63. \<open>forward\<close> above is the same function
  without this limit.
\<close>

fun forward_bounded ::
  "nat \<Rightarrow> (nat \<times> real) list \<Rightarrow> token \<Rightarrow> string list \<Rightarrow> string \<Rightarrow> real \<Rightarrow> int option \<Rightarrow>
   outcome option"
where
  "forward_bounded 0 env token peers name delay max_passes =
     Some \<lparr>result = Inl RecursionError, final = token, events = [], frames = 0\<rparr>"
| "forward_bounded (Suc limit) env token peers name delay max_passes =
     (if limit_reached token name max_passes then
        Some \<lparr>result = Inr None, final = token,
              events = [SetStatus (completion_status token)], frames = 1\<rparr>
      else if holder token \<noteq> name then
        Some \<lparr>result = Inr None, final = token, events = [], frames = 1\<rparr>
      else if peers = [] then
        Some \<lparr>result = Inl ValueError, final = token,
              events = [SetStatus (holding_status token)], frames = 1\<rparr>
      else
        (case env of
           [] \<Rightarrow> None
         | (r, now) # env' \<Rightarrow>
             (let token' = hop token peers r now
              in if holder token' = name then
                   (case forward_bounded limit env' token' peers name delay max_passes of
                      None \<Rightarrow> None
                    | Some out \<Rightarrow>
                        Some (out\<lparr>events := hop_events token delay token' @ events out,
                                  frames := Suc (frames out)\<rparr>))
                 else
                   Some \<lparr>result = Inr (Some token'), final = token',
                         events = hop_events token delay token', frames = 1\<rparr>)))"

section \<open>Auxiliary facts\<close>

lemma logged_append: "logged (xs @ ys) = logged xs @ logged ys"
  by (induction xs rule: logged.induct) simp_all

lemma logged_hop_events: "logged (hop_events token delay token') = [token']"
  by (simp add: hop_events_def)

lemma hop_events_not_Nil: "hop_events token delay token' \<noteq> []"
  by (simp add: hop_events_def)

lemma forward_unfold_hop:
  "\<not> limit_reached token name max_passes \<Longrightarrow> holder token = name \<Longrightarrow> peers \<noteq> [] \<Longrightarrow>
   forward ((r, now) # env) token peers name delay max_passes =
     (if holder (hop token peers r now) = name then
        (case forward env (hop token peers r now) peers name delay max_passes of
           None \<Rightarrow> None
         | Some out \<Rightarrow>
             Some (out\<lparr>events := hop_events token delay (hop token peers r now) @ events out,
                       frames := Suc (frames out)\<rparr>))
      else
        Some \<lparr>result = Inr (Some (hop token peers r now)), final = hop token peers r now,
              events = hop_events token delay (hop token peers r now), frames = 1\<rparr>)"
  by (subst forward.simps) (simp add: Let_def)

lemma hop_fields:
  "times_passed (hop token peers r now) = times_passed token + 1"
  "time_elapsed (hop token peers r now) = time_elapsed token + (now - timestamp token)"
  "timestamp (hop token peers r now) = now"
  "message (hop token peers r now) = message token"
  "holder (hop token peers r now) = peers ! (r mod length peers)"
  by (simp_all add: hop_def)

lemma self_loop_aux:
  "holder token = name \<Longrightarrow> times_passed token \<le> n \<Longrightarrow>
   nat (n - times_passed token) \<le> length env \<Longrightarrow>
   \<exists>out. forward env token [name] name delay (Some n) = Some out \<and>
         result out = Inr None \<and>
         times_passed (final out) = n \<and>
         map times_passed (logged (events out)) = [times_passed token + 1..n] \<and>
         last (events out) = SetStatus (completion_status (final out))"
proof (induction env arbitrary: token)
  case Nil
  then have "times_passed token = n" by simp
  with Nil show ?case
    by (simp add: forward.simps limit_reached_def)
next
  case (Cons e env)
  obtain r now where e: "e = (r, now)" by (cases e)
  show ?case
  proof (cases "times_passed token = n")
    case True
    with Cons.prems show ?thesis
      by (simp add: forward.simps limit_reached_def)
  next
    case False
    let ?t = "hop token [name] r now"
    have nl: "\<not> limit_reached token name (Some n)"
      using False by (simp add: limit_reached_def)
    have h: "holder ?t = name" by (simp add: hop_fields)
    have tp: "times_passed ?t = times_passed token + 1" by (simp add: hop_fields)
    have le: "times_passed ?t \<le> n" using False Cons.prems(2) tp by simp
    have len: "nat (n - times_passed ?t) \<le> length env"
      using Cons.prems(3) False tp by simp
    from Cons.IH [OF h le len] obtain out where
      out: "forward env ?t [name] name delay (Some n) = Some out"
        "result out = Inr None" "times_passed (final out) = n"
        "map times_passed (logged (events out)) = [times_passed ?t + 1..n]"
        "last (events out) = SetStatus (completion_status (final out))"
      by blast
    have ne: "events out \<noteq> []"
      using out(1) h le
      by (subst (asm) forward.simps) (auto simp: limit_reached_def Let_def hop_events_not_Nil split: if_splits list.splits option.splits)
    let ?out = "out\<lparr>events := hop_events token delay ?t @ events out, frames := Suc (frames out)\<rparr>"
    have f: "forward (e # env) token [name] name delay (Some n) = Some ?out"
      unfolding e using nl Cons.prems(1) h out(1) by (simp add: forward_unfold_hop)
    have up: "[times_passed token + 1..n] = (times_passed token + 1) # [times_passed ?t + 1..n]"
      using le tp by (simp add: upto_rec1)
    show ?thesis
      using f out ne up tp by (simp add: logged_append logged_hop_events)
  qed
qed


text \<open>
  Induction over the nested calls of a run that has an outcome, one case for each way a
  call ends: the termination check holds; the holder is another unit; the peer list is
  empty; the hop selects another peer; the hop selects this unit and the nested call has
  an outcome.
\<close>

lemma forward_outcome_induct [consumes 1, case_names limit other empty last self]:
  assumes "forward env token peers name delay max_passes = Some out"
    and "\<And>env token. limit_reached token name max_passes \<Longrightarrow>
          P env token \<lparr>result = Inr None, final = token,
                       events = [SetStatus (completion_status token)], frames = 1\<rparr>"
    and "\<And>env token. \<not> limit_reached token name max_passes \<Longrightarrow> holder token \<noteq> name \<Longrightarrow>
          P env token \<lparr>result = Inr None, final = token, events = [], frames = 1\<rparr>"
    and "\<And>env token. \<not> limit_reached token name max_passes \<Longrightarrow> holder token = name \<Longrightarrow>
          peers = [] \<Longrightarrow>
          P env token \<lparr>result = Inl ValueError, final = token,
                       events = [SetStatus (holding_status token)], frames = 1\<rparr>"
    and "\<And>r now env token. \<not> limit_reached token name max_passes \<Longrightarrow> holder token = name \<Longrightarrow>
          peers \<noteq> [] \<Longrightarrow> holder (hop token peers r now) \<noteq> name \<Longrightarrow>
          P ((r, now) # env) token
            \<lparr>result = Inr (Some (hop token peers r now)), final = hop token peers r now,
             events = hop_events token delay (hop token peers r now), frames = 1\<rparr>"
    and "\<And>r now env token out. \<not> limit_reached token name max_passes \<Longrightarrow>
          holder token = name \<Longrightarrow> peers \<noteq> [] \<Longrightarrow> holder (hop token peers r now) = name \<Longrightarrow>
          forward env (hop token peers r now) peers name delay max_passes = Some out \<Longrightarrow>
          P env (hop token peers r now) out \<Longrightarrow>
          P ((r, now) # env) token
            (out\<lparr>events := hop_events token delay (hop token peers r now) @ events out,
                 frames := Suc (frames out)\<rparr>)"
  shows "P env token out"
  using assms(1)
proof (induction env arbitrary: token out)
  case Nil
  then show ?case
    using assms(2,3,4) [of token "[]"]
    by (subst (asm) forward.simps) (auto split: if_splits)
next
  case (Cons e env)
  obtain r now where e: "e = (r, now)" by (cases e)
  consider (a) "limit_reached token name max_passes"
    | (b) "\<not> limit_reached token name max_passes" "holder token \<noteq> name"
    | (c) "\<not> limit_reached token name max_passes" "holder token = name" "peers = []"
    | (d) "\<not> limit_reached token name max_passes" "holder token = name" "peers \<noteq> []"
    by blast
  then show ?case
  proof cases
    case a
    with Cons.prems assms(2) [of token "e # env"] show ?thesis
      by (subst (asm) forward.simps) simp
  next
    case b
    with Cons.prems assms(3) [of token "e # env"] show ?thesis
      by (subst (asm) forward.simps) simp
  next
    case c
    with Cons.prems assms(4) [of token "e # env"] show ?thesis
      by (subst (asm) forward.simps) simp
  next
    case d
    show ?thesis
    proof (cases "holder (hop token peers r now) = name")
      case False
      with d Cons.prems assms(5) [of token r now env] show ?thesis
        by (simp add: e forward_unfold_hop)
    next
      case True
      with d Cons.prems obtain out' where
        o: "forward env (hop token peers r now) peers name delay max_passes = Some out'"
        and eq: "out = out'\<lparr>events := hop_events token delay (hop token peers r now) @ events out',
                            frames := Suc (frames out')\<rparr>"
        by (auto simp: e forward_unfold_hop split: option.splits)
      from assms(6) [OF d True o Cons.IH [OF o]] show ?thesis
        by (simp add: e eq)
    qed
  qed
qed

lemma completion_not_holding: "completion_status t \<noteq> holding_status t'"
  by (simp add: completion_status_def holding_status_def)

lemma completion_not_idle: "completion_status t \<noteq> ActiveStatus ''''"
  by (simp add: completion_status_def)

lemma completion_notin_hop_events:
  "SetStatus (completion_status t) \<notin> set (hop_events token delay token')"
  using completion_not_holding [of t token] completion_not_idle [of t]
  by (auto simp: hop_events_def)

lemma overshoot_aux:
  "forward env token peers name delay (Some n) = Some out \<Longrightarrow>
   holder token = name \<Longrightarrow> n < times_passed token \<Longrightarrow>
   result out \<noteq> Inr None \<and>
   (\<forall>t. SetStatus (completion_status t) \<notin> set (events out)) \<and>
   prefix [SetStatus (holding_status token)] (events out)"
proof (induction rule: forward_outcome_induct)
  case (limit env token)
  then show ?case by (simp add: limit_reached_def)
next
  case (other env token)
  then show ?case by simp
next
  case (empty env token)
  then show ?case using completion_not_holding by auto
next
  case (last r now env token)
  then show ?case
    using completion_notin_hop_events by (auto simp: hop_events_def)
next
  case (self r now env token out)
  then show ?case
    using completion_notin_hop_events by (auto simp: hop_fields hop_events_def)
qed

lemma frames_le_logged:
  "forward env token peers name delay max_passes = Some out \<Longrightarrow>
   frames out \<le> Suc (length (logged (events out)))"
  by (induction rule: forward_outcome_induct)
     (simp_all add: logged_append logged_hop_events)

lemma bounded_agree:
  "forward env token peers name delay max_passes = Some out \<Longrightarrow>
   frames out \<le> limit \<Longrightarrow>
   forward_bounded limit env token peers name delay max_passes = Some out"
proof (induction arbitrary: limit rule: forward_outcome_induct)
  case (self r now env token out)
  then obtain l where l: "limit = Suc l" by (cases limit) auto
  with self show ?case by (simp add: Let_def)
qed (case_tac limit; simp add: Let_def)+

lemma bounded_overflow:
  "holder token = name \<Longrightarrow> int limit \<le> n - times_passed token \<Longrightarrow> limit \<le> length env \<Longrightarrow>
   \<exists>out. forward_bounded limit env token [name] name delay (Some n) = Some out \<and>
         result out = Inl RecursionError \<and>
         (\<forall>t. SetStatus (completion_status t) \<notin> set (events out))"
proof (induction limit arbitrary: env token)
  case 0
  then show ?case by simp
next
  case (Suc limit)
  from Suc.prems(3) obtain r now env' where env: "env = (r, now) # env'"
    by (cases env) auto
  let ?t = "hop token [name] r now"
  have nl: "\<not> limit_reached token name (Some n)"
    using Suc.prems(2) by (simp add: limit_reached_def)
  have h: "holder ?t = name" by (simp add: hop_fields)
  have le: "int limit \<le> n - times_passed ?t"
    using Suc.prems(2) by (simp add: hop_fields)
  have len: "limit \<le> length env'" using Suc.prems(3) env by simp
  from Suc.IH [OF h le len] obtain out where
    out: "forward_bounded limit env' ?t [name] name delay (Some n) = Some out"
      "result out = Inl RecursionError"
      "\<forall>t. SetStatus (completion_status t) \<notin> set (events out)"
    by blast
  show ?case
    using nl Suc.prems(1) h out completion_notin_hop_events
    by (simp add: env Let_def)
qed

section \<open>Properties\<close>

text \<open>
  C1. When \<^verbatim>\<open>max_passes\<close> is set, \<^verbatim>\<open>times_passed\<close> equals it and the holder is this
  unit, \<^verbatim>\<open>forward\<close> returns \<^verbatim>\<open>None\<close>; the one thing it does is to report completion, with
  the \<^verbatim>\<open>time_elapsed\<close> of the token as received; the token is not touched. This holds for
  every message, elapsed time, delay, peer list (also the empty one) and environment.
\<close>

theorem forward_limit_reached:
  "times_passed token = n \<Longrightarrow> holder token = name \<Longrightarrow>
   forward env token peers name delay (Some n) =
     Some \<lparr>result = Inr None, final = token,
           events = [SetStatus (ActiveStatus
             (''Maximum passes reached. Time to completion is '' @
              fmt2 (time_elapsed token) @ '' seconds.''))],
           frames = 1\<rparr>"
  by (simp add: forward.simps limit_reached_def completion_status_def)

theorem forward_limit_reached_witness:
  "times_passed \<lparr>message = ''hi'', holder = ''A'', times_passed = 1, time_elapsed = 3 / 2,
                  timestamp = 10\<rparr> = 1 \<and>
   holder \<lparr>message = ''hi'', holder = ''A'', times_passed = 1, time_elapsed = 3 / 2,
            timestamp = 10\<rparr> = ''A'' \<and>
   forward [] \<lparr>message = ''hi'', holder = ''A'', times_passed = 1, time_elapsed = 3 / 2,
                timestamp = 10\<rparr> [''A'', ''B''] ''A'' 0 (Some 1) =
     Some \<lparr>result = Inr None,
           final = \<lparr>message = ''hi'', holder = ''A'', times_passed = 1, time_elapsed = 3 / 2,
                    timestamp = 10\<rparr>,
           events = [SetStatus (ActiveStatus
             ''Maximum passes reached. Time to completion is 1.50 seconds.'')],
           frames = 1\<rparr>"
  using forward_limit_reached
    [of "\<lparr>message = ''hi'', holder = ''A'', times_passed = 1, time_elapsed = 3 / 2,
          timestamp = 10\<rparr>" 1 "''A''" "[]" "[''A'', ''B'']" 0]
  by (simp add: fmt2_def round_half_even_def str_nat.simps digit_char_def)

text \<open>
  C2. When the holder of the token is not this unit, \<^verbatim>\<open>forward\<close> returns \<^verbatim>\<open>None\<close>, which
  is a value and not an exception, does nothing to the outside and leaves every field of
  the token as it was, for every peer list, delay, limit and environment. (The
  termination check cannot hold for such a token: it asks for the holder to be this
  unit.)
\<close>

theorem forward_not_holder:
  "holder token \<noteq> name \<Longrightarrow>
   forward env token peers name delay max_passes =
     Some \<lparr>result = Inr None, final = token, events = [], frames = 1\<rparr>"
  by (simp add: forward.simps limit_reached_def split: option.splits)

theorem forward_not_holder_witness:
  "holder \<lparr>message = ''hi'', holder = ''B'', times_passed = 4, time_elapsed = 2,
            timestamp = 10\<rparr> \<noteq> ''A'' \<and>
   forward [(0, 11)] \<lparr>message = ''hi'', holder = ''B'', times_passed = 4, time_elapsed = 2,
                       timestamp = 10\<rparr> [''A'', ''B''] ''A'' 1 (Some 4) =
     Some \<lparr>result = Inr None,
           final = \<lparr>message = ''hi'', holder = ''B'', times_passed = 4, time_elapsed = 2,
                    timestamp = 10\<rparr>,
           events = [], frames = 1\<rparr>"
  using forward_not_holder
    [of "\<lparr>message = ''hi'', holder = ''B'', times_passed = 4, time_elapsed = 2,
          timestamp = 10\<rparr>" "''A''" "[(0, 11)]" "[''A'', ''B'']" 1 "Some 4"]
  by simp

text \<open>
  C3. With the one-element peer list \<open>[name]\<close>, a token held by this unit and a count
  below the limit \<open>n\<close>, the run needs \<open>n - times_passed token\<close> self-hops and one nested
  activation of \<^verbatim>\<open>forward\<close> more than that. When the interpreter has room for them, the
  call ends on every environment with at least \<open>n - times_passed token\<close> entries: its
  outcome is \<^verbatim>\<open>None\<close> (no token is returned for transmission), the counts logged after
  the hops are \<open>times_passed token + 1, ..., n\<close>, each one more than the one before, and
  the last thing the call does is to report completion. When the interpreter has no room
  for them, the call ends with \<^verbatim>\<open>RecursionError\<close> and never reports completion.
\<close>

theorem forward_self_loop:
  "holder token = name \<Longrightarrow> times_passed token < n \<Longrightarrow>
   nat (n - times_passed token) \<le> length env \<Longrightarrow>
   (nat (n - times_passed token) < limit \<longrightarrow>
      (\<exists>out. forward_bounded limit env token [name] name delay (Some n) = Some out \<and>
             result out = Inr None \<and>
             times_passed (final out) = n \<and>
             map times_passed (logged (events out)) = [times_passed token + 1..n] \<and>
             last (events out) = SetStatus (completion_status (final out)))) \<and>
   (limit \<le> nat (n - times_passed token) \<longrightarrow>
      (\<exists>out. forward_bounded limit env token [name] name delay (Some n) = Some out \<and>
             result out = Inl RecursionError \<and>
             (\<forall>t. SetStatus (completion_status t) \<notin> set (events out))))"
proof (intro conjI impI)
  assume a: "holder token = name" "times_passed token < n"
    "nat (n - times_passed token) \<le> length env"
  {
    assume lim: "nat (n - times_passed token) < limit"
    from self_loop_aux [of token name n env delay] a obtain out where
      out: "forward env token [name] name delay (Some n) = Some out"
        "result out = Inr None" "times_passed (final out) = n"
        "map times_passed (logged (events out)) = [times_passed token + 1..n]"
        "last (events out) = SetStatus (completion_status (final out))"
      by auto
    have "length (map times_passed (logged (events out))) = nat (n - times_passed token)"
      unfolding out(4) by simp
    then have "length (logged (events out)) = nat (n - times_passed token)" by simp
    with frames_le_logged [OF out(1)] lim have "frames out \<le> limit" by simp
    from bounded_agree [OF out(1) this] out
    show "\<exists>out. forward_bounded limit env token [name] name delay (Some n) = Some out \<and>
             result out = Inr None \<and>
             times_passed (final out) = n \<and>
             map times_passed (logged (events out)) = [times_passed token + 1..n] \<and>
             last (events out) = SetStatus (completion_status (final out))"
      by blast
  }
  {
    assume lim: "limit \<le> nat (n - times_passed token)"
    then have "int limit \<le> n - times_passed token" "limit \<le> length env"
      using a by linarith+
    from bounded_overflow [OF a(1) this]
    show "\<exists>out. forward_bounded limit env token [name] name delay (Some n) = Some out \<and>
             result out = Inl RecursionError \<and>
             (\<forall>t. SetStatus (completion_status t) \<notin> set (events out))" .
  }
qed

theorem forward_self_loop_witness:
  "holder \<lparr>message = ''hi'', holder = ''A'', times_passed = 0, time_elapsed = 0,
            timestamp = 10\<rparr> = ''A'' \<and>
   times_passed \<lparr>message = ''hi'', holder = ''A'', times_passed = 0, time_elapsed = 0,
                  timestamp = 10\<rparr> < 3 \<and>
   nat (3 - times_passed \<lparr>message = ''hi'', holder = ''A'', times_passed = 0,
                           time_elapsed = 0, timestamp = 10\<rparr>)
     \<le> length [(0::nat, 11::real), (0, 12), (0, 13)] \<and>
   nat (3 - times_passed \<lparr>message = ''hi'', holder = ''A'', times_passed = 0,
                           time_elapsed = 0, timestamp = 10\<rparr>) < 4 \<and>
   (\<exists>out. forward_bounded 4 [(0, 11), (0, 12), (0, 13)]
             \<lparr>message = ''hi'', holder = ''A'', times_passed = 0, time_elapsed = 0,
              timestamp = 10\<rparr> [''A''] ''A'' 0 (Some 3) = Some out \<and>
          result out = Inr None \<and>
          times_passed (final out) = 3 \<and>
          map times_passed (logged (events out)) = [1, 2, 3] \<and>
          last (events out) = SetStatus (completion_status (final out))) \<and>
   3 \<le> nat (3 - times_passed \<lparr>message = ''hi'', holder = ''A'', times_passed = 0,
                               time_elapsed = 0, timestamp = 10\<rparr>) \<and>
   (\<exists>out. forward_bounded 3 [(0, 11), (0, 12), (0, 13)]
             \<lparr>message = ''hi'', holder = ''A'', times_passed = 0, time_elapsed = 0,
              timestamp = 10\<rparr> [''A''] ''A'' 0 (Some 3) = Some out \<and>
          result out = Inl RecursionError \<and>
          (\<forall>t. SetStatus (completion_status t) \<notin> set (events out)))"
proof -
  have up: "[1..3] = [1, 2, 3::int]" by code_simp
  show ?thesis
    using forward_self_loop
        [of "\<lparr>message = ''hi'', holder = ''A'', times_passed = 0, time_elapsed = 0,
              timestamp = 10\<rparr>" "''A''" 3 "[(0, 11), (0, 12), (0, 13)]" 4 0]
      forward_self_loop
        [of "\<lparr>message = ''hi'', holder = ''A'', times_passed = 0, time_elapsed = 0,
              timestamp = 10\<rparr>" "''A''" 3 "[(0, 11), (0, 12), (0, 13)]" 3 0]
    by (simp add: up)
qed

text \<open>
  The claim without the proviso fails at a limit the configuration can hold: with the
  peer list \<open>[''A'']\<close>, a fresh token and \<^verbatim>\<open>max_passes\<close> 1000 the run needs 1001 nested
  activations, and with room for 1000 the call ends with \<^verbatim>\<open>RecursionError\<close>.
\<close>

theorem forward_self_loop_counterexample:
  "map_option result
     (forward_bounded 1000 (replicate 1000 (0, 11))
        \<lparr>message = ''hi'', holder = ''A'', times_passed = 0, time_elapsed = 0,
         timestamp = 10\<rparr> [''A''] ''A'' 0 (Some 1000)) = Some (Inl RecursionError)"
  using bounded_overflow
    [of "\<lparr>message = ''hi'', holder = ''A'', times_passed = 0, time_elapsed = 0,
          timestamp = 10\<rparr>" "''A''" 1000 1000 "replicate 1000 (0, 11)" 0]
  by auto

text \<open>
  C4. The call of line 63 is a call of \<^verbatim>\<open>forward\<close> from inside \<^verbatim>\<open>forward\<close> (its docstring
  says "Recursive function"): every self-hop, that is every hop after which the logged
  token is held by this unit again, is handled by one more nested activation. A call
  that makes \<open>k\<close> self-hops reaches a depth of \<open>k + 1\<close> frames of \<^verbatim>\<open>forward\<close>.
\<close>

theorem forward_frames:
  "forward env token peers name delay max_passes = Some out \<Longrightarrow>
   frames out = Suc (length (filter (\<lambda>t. holder t = name) (logged (events out))))"
  by (induction rule: forward_outcome_induct)
     (simp_all add: logged_append logged_hop_events)

theorem forward_frames_witness:
  "forward [(0, 11), (0, 12), (1, 13)]
     \<lparr>message = ''hi'', holder = ''A'', times_passed = 0, time_elapsed = 0, timestamp = 10\<rparr>
     [''A'', ''B''] ''A'' 0 None =
     Some \<lparr>result = Inr (Some \<lparr>message = ''hi'', holder = ''B'', times_passed = 3,
                               time_elapsed = 3, timestamp = 13\<rparr>),
           final = \<lparr>message = ''hi'', holder = ''B'', times_passed = 3,
                    time_elapsed = 3, timestamp = 13\<rparr>,
           events =
             [SetStatus (ActiveStatus ''M: hi, H: A, P: 0, T: 0.00''),
              SetStatus (ActiveStatus ''''),
              LogInfo \<lparr>message = ''hi'', holder = ''A'', times_passed = 1,
                       time_elapsed = 1, timestamp = 11\<rparr>,
              SetStatus (ActiveStatus ''M: hi, H: A, P: 1, T: 1.00''),
              SetStatus (ActiveStatus ''''),
              LogInfo \<lparr>message = ''hi'', holder = ''A'', times_passed = 2,
                       time_elapsed = 2, timestamp = 12\<rparr>,
              SetStatus (ActiveStatus ''M: hi, H: A, P: 2, T: 2.00''),
              SetStatus (ActiveStatus ''''),
              LogInfo \<lparr>message = ''hi'', holder = ''B'', times_passed = 3,
                       time_elapsed = 3, timestamp = 13\<rparr>],
           frames = 3\<rparr> \<and>
   (3::nat) = Suc (length (filter (\<lambda>t. holder t = ''A'')
       [\<lparr>message = ''hi'', holder = ''A'', times_passed = 1, time_elapsed = 1, timestamp = 11\<rparr>,
        \<lparr>message = ''hi'', holder = ''A'', times_passed = 2, time_elapsed = 2, timestamp = 12\<rparr>,
        \<lparr>message = ''hi'', holder = ''B'', times_passed = 3, time_elapsed = 3, timestamp = 13\<rparr>]))"
proof -
  have h: "forward [(0, 11), (0, 12), (1, 13)]
     \<lparr>message = ''hi'', holder = ''A'', times_passed = 0, time_elapsed = 0, timestamp = 10\<rparr>
     [''A'', ''B''] ''A'' 0 None =
     Some \<lparr>result = Inr (Some \<lparr>message = ''hi'', holder = ''B'', times_passed = 3,
                               time_elapsed = 3, timestamp = 13\<rparr>),
           final = \<lparr>message = ''hi'', holder = ''B'', times_passed = 3,
                    time_elapsed = 3, timestamp = 13\<rparr>,
           events =
             [SetStatus (ActiveStatus ''M: hi, H: A, P: 0, T: 0.00''),
              SetStatus (ActiveStatus ''''),
              LogInfo \<lparr>message = ''hi'', holder = ''A'', times_passed = 1,
                       time_elapsed = 1, timestamp = 11\<rparr>,
              SetStatus (ActiveStatus ''M: hi, H: A, P: 1, T: 1.00''),
              SetStatus (ActiveStatus ''''),
              LogInfo \<lparr>message = ''hi'', holder = ''A'', times_passed = 2,
                       time_elapsed = 2, timestamp = 12\<rparr>,
              SetStatus (ActiveStatus ''M: hi, H: A, P: 2, T: 2.00''),
              SetStatus (ActiveStatus ''''),
              LogInfo \<lparr>message = ''hi'', holder = ''B'', times_passed = 3,
                       time_elapsed = 3, timestamp = 13\<rparr>],
           frames = 3\<rparr>"
    by code_simp
  show ?thesis using h forward_frames [OF h] by simp
qed

text \<open>
  The stack does grow with a run of self-hops: three self-hops on the peer list
  \<open>[''A'']\<close> with limit 3 are logged, and the call is four frames deep.
\<close>

theorem forward_self_hops_counterexample:
  "map_option (\<lambda>out. (length (logged (events out)), frames out))
     (forward [(0, 11), (0, 12), (0, 13)]
        \<lparr>message = ''hi'', holder = ''A'', times_passed = 0, time_elapsed = 0,
         timestamp = 10\<rparr> [''A''] ''A'' 0 (Some 3)) = Some (3, 4)"
  by code_simp

text \<open>
  C5. With the empty peer list, \<^verbatim>\<open>forward\<close> raises the \<^verbatim>\<open>ValueError\<close> of
  \<^verbatim>\<open>random.randint(0, -1)\<close>, which it does not catch, exactly when it reaches the
  hand-off: the holder is this unit and the termination check does not hold. The status
  of line 45 has been set by then, and the token is unchanged. When the termination
  check holds or the holder is another unit, the call returns \<^verbatim>\<open>None\<close> without an
  error, as on any other peer list.
\<close>

theorem forward_empty_peers:
  "forward env token [] name delay max_passes =
     Some \<lparr>result = (if holder token = name \<and> \<not> limit_reached token name max_passes
                     then Inl ValueError else Inr None),
           final = token,
           events = (if limit_reached token name max_passes
                     then [SetStatus (completion_status token)]
                     else if holder token = name then [SetStatus (holding_status token)]
                     else []),
           frames = 1\<rparr>"
  by (subst forward.simps) (auto simp: limit_reached_def split: option.splits)

theorem forward_empty_peers_witness:
  "forward [(0, 11)]
     \<lparr>message = ''hi'', holder = ''A'', times_passed = 0, time_elapsed = 0, timestamp = 10\<rparr>
     [] ''A'' 0 (Some 3) =
   Some \<lparr>result = Inl ValueError,
         final = \<lparr>message = ''hi'', holder = ''A'', times_passed = 0, time_elapsed = 0,
                  timestamp = 10\<rparr>,
         events = [SetStatus (ActiveStatus ''M: hi, H: A, P: 0, T: 0.00'')], frames = 1\<rparr>"
proof -
  have s: "holding_status \<lparr>message = ''hi'', holder = ''A'', times_passed = 0,
             time_elapsed = 0, timestamp = 10\<rparr> =
           ActiveStatus ''M: hi, H: A, P: 0, T: 0.00''"
    by code_simp
  show ?thesis
    using forward_empty_peers
      [of "[(0, 11)]" "\<lparr>message = ''hi'', holder = ''A'', times_passed = 0,
             time_elapsed = 0, timestamp = 10\<rparr>" "''A''" 0 "Some 3"]
    by (simp add: s limit_reached_def)
qed

text \<open>
  An empty peer list with a token held by another unit: the call returns \<^verbatim>\<open>None\<close> and
  raises nothing.
\<close>

theorem forward_empty_peers_counterexample:
  "forward [(0, 11)]
     \<lparr>message = ''hi'', holder = ''B'', times_passed = 0, time_elapsed = 0, timestamp = 10\<rparr>
     [] ''A'' 0 None =
   Some \<lparr>result = Inr None,
         final = \<lparr>message = ''hi'', holder = ''B'', times_passed = 0, time_elapsed = 0,
                  timestamp = 10\<rparr>,
         events = [], frames = 1\<rparr>"
  by code_simp

text \<open>
  C6. Every hop of a call (a self-hop too) increases \<^verbatim>\<open>times_passed\<close> by exactly 1, so
  the count never decreases, and leaves \<^verbatim>\<open>time_elapsed\<close> non-decreasing when the clock
  reading of the hop, which becomes the token's \<^verbatim>\<open>timestamp\<close>, is not earlier than the
  timestamp the token had. The list \<open>token # logged (events out)\<close> is the token as
  received followed by its state after each hop; the last of them is the state of the
  token when the call ends. (The statement uses the order of the time values only: the
  difference of a later and an earlier reading is not negative, and adding a value that is
  not negative does not decrease a sum; rounding to the nearest double keeps both.)
\<close>

theorem forward_hops:
  "forward env token peers name delay max_passes = Some out \<Longrightarrow>
   successively (\<lambda>a b. times_passed b = times_passed a + 1 \<and>
                       (timestamp a \<le> timestamp b \<longrightarrow> time_elapsed a \<le> time_elapsed b))
                (token # logged (events out)) \<and>
   final out = last (token # logged (events out)) \<and>
   map timestamp (logged (events out)) = map snd (take (length (logged (events out))) env) \<and>
   times_passed (final out) = times_passed token + int (length (logged (events out))) \<and>
   times_passed token \<le> times_passed (final out)"
  by (induction rule: forward_outcome_induct)
     (auto simp: logged_append logged_hop_events hop_fields split: if_splits)

theorem forward_hops_witness:
  "forward [(0, 11), (1, 25 / 2)]
     \<lparr>message = ''hi'', holder = ''A'', times_passed = 0, time_elapsed = 0, timestamp = 10\<rparr>
     [''A'', ''B''] ''A'' 0 None =
     Some \<lparr>result = Inr (Some \<lparr>message = ''hi'', holder = ''B'', times_passed = 2,
                               time_elapsed = 5 / 2, timestamp = 25 / 2\<rparr>),
           final = \<lparr>message = ''hi'', holder = ''B'', times_passed = 2,
                    time_elapsed = 5 / 2, timestamp = 25 / 2\<rparr>,
           events =
             [SetStatus (ActiveStatus ''M: hi, H: A, P: 0, T: 0.00''),
              SetStatus (ActiveStatus ''''),
              LogInfo \<lparr>message = ''hi'', holder = ''A'', times_passed = 1,
                       time_elapsed = 1, timestamp = 11\<rparr>,
              SetStatus (ActiveStatus ''M: hi, H: A, P: 1, T: 1.00''),
              SetStatus (ActiveStatus ''''),
              LogInfo \<lparr>message = ''hi'', holder = ''B'', times_passed = 2,
                       time_elapsed = 5 / 2, timestamp = 25 / 2\<rparr>],
           frames = 2\<rparr> \<and>
   successively (\<lambda>a b. times_passed b = times_passed a + 1 \<and>
                       (timestamp a \<le> timestamp b \<longrightarrow> time_elapsed a \<le> time_elapsed b))
     [\<lparr>message = ''hi'', holder = ''A'', times_passed = 0, time_elapsed = 0, timestamp = 10\<rparr>,
      \<lparr>message = ''hi'', holder = ''A'', times_passed = 1, time_elapsed = 1, timestamp = 11\<rparr>,
      \<lparr>message = ''hi'', holder = ''B'', times_passed = 2, time_elapsed = 5 / 2,
       timestamp = 25 / 2\<rparr>]"
proof -
  have h: "forward [(0, 11), (1, 25 / 2)]
     \<lparr>message = ''hi'', holder = ''A'', times_passed = 0, time_elapsed = 0, timestamp = 10\<rparr>
     [''A'', ''B''] ''A'' 0 None =
     Some \<lparr>result = Inr (Some \<lparr>message = ''hi'', holder = ''B'', times_passed = 2,
                               time_elapsed = 5 / 2, timestamp = 25 / 2\<rparr>),
           final = \<lparr>message = ''hi'', holder = ''B'', times_passed = 2,
                    time_elapsed = 5 / 2, timestamp = 25 / 2\<rparr>,
           events =
             [SetStatus (ActiveStatus ''M: hi, H: A, P: 0, T: 0.00''),
              SetStatus (ActiveStatus ''''),
              LogInfo \<lparr>message = ''hi'', holder = ''A'', times_passed = 1,
                       time_elapsed = 1, timestamp = 11\<rparr>,
              SetStatus (ActiveStatus ''M: hi, H: A, P: 1, T: 1.00''),
              SetStatus (ActiveStatus ''''),
              LogInfo \<lparr>message = ''hi'', holder = ''B'', times_passed = 2,
                       time_elapsed = 5 / 2, timestamp = 25 / 2\<rparr>],
           frames = 2\<rparr>"
    by code_simp
  show ?thesis using h forward_hops [OF h] by simp
qed

text \<open>
  \<^verbatim>\<open>time.time()\<close> is the wall clock of the unit, and the timestamp of a received token is
  a reading of another unit's clock. With a timestamp of 10 and a reading of 5 the hop
  takes \<^verbatim>\<open>time_elapsed\<close> from 2 to -3.
\<close>

theorem forward_clock_counterexample:
  "map_option (\<lambda>out. (result out, time_elapsed (final out)))
     (forward [(1, 5)]
        \<lparr>message = ''hi'', holder = ''A'', times_passed = 0, time_elapsed = 2, timestamp = 10\<rparr>
        [''A'', ''B''] ''A'' 0 None) =
   Some (Inr (Some \<lparr>message = ''hi'', holder = ''B'', times_passed = 1, time_elapsed = - 3,
                    timestamp = 5\<rparr>), - 3)"
  by code_simp

text \<open>
  C7. The check of line 35 is an equality. For a token held by this unit whose count is
  above the limit \<open>n\<close>, a call never reports completion and never ends in the
  termination outcome: whatever outcome it has, the first thing it does is to set the
  status of the hand-off, no status it sets is the completion status, and its result is
  not \<^verbatim>\<open>None\<close> (it is a token handed to another peer, or the error of the empty peer
  list). With a non-empty peer list and a draw that selects another peer, the call
  returns the token after that one hop.
\<close>

theorem forward_overshoot:
  "holder token = name \<Longrightarrow> n < times_passed token \<Longrightarrow>
   (\<forall>out. forward env token peers name delay (Some n) = Some out \<longrightarrow>
      result out \<noteq> Inr None \<and>
      (\<forall>t. SetStatus (completion_status t) \<notin> set (events out)) \<and>
      prefix [SetStatus (holding_status token)] (events out)) \<and>
   (peers \<noteq> [] \<longrightarrow> holder (hop token peers r now) \<noteq> name \<longrightarrow>
      forward ((r, now) # env) token peers name delay (Some n) =
        Some \<lparr>result = Inr (Some (hop token peers r now)), final = hop token peers r now,
              events = hop_events token delay (hop token peers r now), frames = 1\<rparr>)"
  using overshoot_aux [of env token peers name delay n]
  by (auto simp: forward_unfold_hop limit_reached_def)

theorem forward_overshoot_witness:
  "holder \<lparr>message = ''hi'', holder = ''A'', times_passed = 5, time_elapsed = 0,
            timestamp = 10\<rparr> = ''A'' \<and>
   3 < times_passed \<lparr>message = ''hi'', holder = ''A'', times_passed = 5, time_elapsed = 0,
                      timestamp = 10\<rparr> \<and>
   forward [(1, 11)]
     \<lparr>message = ''hi'', holder = ''A'', times_passed = 5, time_elapsed = 0, timestamp = 10\<rparr>
     [''A'', ''B''] ''A'' 0 (Some 3) =
     Some \<lparr>result = Inr (Some \<lparr>message = ''hi'', holder = ''B'', times_passed = 6,
                               time_elapsed = 1, timestamp = 11\<rparr>),
           final = \<lparr>message = ''hi'', holder = ''B'', times_passed = 6,
                    time_elapsed = 1, timestamp = 11\<rparr>,
           events =
             [SetStatus (ActiveStatus ''M: hi, H: A, P: 5, T: 0.00''),
              SetStatus (ActiveStatus ''''),
              LogInfo \<lparr>message = ''hi'', holder = ''B'', times_passed = 6,
                       time_elapsed = 1, timestamp = 11\<rparr>],
           frames = 1\<rparr> \<and>
   (\<forall>t. SetStatus (completion_status t) \<notin> set
             [SetStatus (ActiveStatus ''M: hi, H: A, P: 5, T: 0.00''),
              SetStatus (ActiveStatus ''''),
              LogInfo \<lparr>message = ''hi'', holder = ''B'', times_passed = 6,
                       time_elapsed = 1, timestamp = 11\<rparr>]) \<and>
   [''A'', ''B''] \<noteq> [] \<and>
   holder (hop \<lparr>message = ''hi'', holder = ''A'', times_passed = 5, time_elapsed = 0,
                 timestamp = 10\<rparr> [''A'', ''B''] 1 11) \<noteq> ''A'' \<and>
   map_option result (forward [(1, 11), (1, 11)]
     \<lparr>message = ''hi'', holder = ''A'', times_passed = 5, time_elapsed = 0, timestamp = 10\<rparr>
     [''A'', ''B''] ''A'' 0 (Some 3)) =
     Some (Inr (Some \<lparr>message = ''hi'', holder = ''B'', times_passed = 6,
                       time_elapsed = 1, timestamp = 11\<rparr>))"
proof -
  let ?t = "\<lparr>message = ''hi'', holder = ''A'', times_passed = 5, time_elapsed = 0,
             timestamp = 10\<rparr>"
  have h: "forward [(1, 11)] ?t [''A'', ''B''] ''A'' 0 (Some 3) =
     Some \<lparr>result = Inr (Some \<lparr>message = ''hi'', holder = ''B'', times_passed = 6,
                               time_elapsed = 1, timestamp = 11\<rparr>),
           final = \<lparr>message = ''hi'', holder = ''B'', times_passed = 6,
                    time_elapsed = 1, timestamp = 11\<rparr>,
           events =
             [SetStatus (ActiveStatus ''M: hi, H: A, P: 5, T: 0.00''),
              SetStatus (ActiveStatus ''''),
              LogInfo \<lparr>message = ''hi'', holder = ''B'', times_passed = 6,
                       time_elapsed = 1, timestamp = 11\<rparr>],
           frames = 1\<rparr>"
    by code_simp
  have hp: "hop ?t [''A'', ''B''] 1 11 =
     \<lparr>message = ''hi'', holder = ''B'', times_passed = 6, time_elapsed = 1, timestamp = 11\<rparr>"
    by code_simp
  show ?thesis
    using forward_overshoot [of ?t "''A''" 3 "[(1, 11)]" "[''A'', ''B'']" 0 1 11] h hp
    by simp
qed

text \<open>
  C8. When \<^verbatim>\<open>forward\<close> returns a token, the holder of that token is an element of the
  peer list that was passed in and is not this unit; the token returned is the caller's
  dict in its final state.
\<close>

theorem forward_returned_holder:
  "forward env token peers name delay max_passes = Some out \<Longrightarrow>
   result out = Inr (Some tk) \<Longrightarrow>
   holder tk \<in> set peers \<and> holder tk \<noteq> name \<and> tk = final out"
  by (induction rule: forward_outcome_induct) (auto simp: hop_fields)

theorem forward_returned_holder_witness:
  "forward [(0, 11), (2, 12)]
     \<lparr>message = ''hi'', holder = ''A'', times_passed = 0, time_elapsed = 0, timestamp = 10\<rparr>
     [''A'', ''B'', ''C''] ''A'' 0 (Some 5) =
     Some \<lparr>result = Inr (Some \<lparr>message = ''hi'', holder = ''C'', times_passed = 2,
                               time_elapsed = 2, timestamp = 12\<rparr>),
           final = \<lparr>message = ''hi'', holder = ''C'', times_passed = 2,
                    time_elapsed = 2, timestamp = 12\<rparr>,
           events =
             [SetStatus (ActiveStatus ''M: hi, H: A, P: 0, T: 0.00''),
              SetStatus (ActiveStatus ''''),
              LogInfo \<lparr>message = ''hi'', holder = ''A'', times_passed = 1,
                       time_elapsed = 1, timestamp = 11\<rparr>,
              SetStatus (ActiveStatus ''M: hi, H: A, P: 1, T: 1.00''),
              SetStatus (ActiveStatus ''''),
              LogInfo \<lparr>message = ''hi'', holder = ''C'', times_passed = 2,
                       time_elapsed = 2, timestamp = 12\<rparr>],
           frames = 2\<rparr> \<and>
   ''C'' \<in> set [''A'', ''B'', ''C''] \<and> ''C'' \<noteq> ''A''"
proof -
  have h: "forward [(0, 11), (2, 12)]
     \<lparr>message = ''hi'', holder = ''A'', times_passed = 0, time_elapsed = 0, timestamp = 10\<rparr>
     [''A'', ''B'', ''C''] ''A'' 0 (Some 5) =
     Some \<lparr>result = Inr (Some \<lparr>message = ''hi'', holder = ''C'', times_passed = 2,
                               time_elapsed = 2, timestamp = 12\<rparr>),
           final = \<lparr>message = ''hi'', holder = ''C'', times_passed = 2,
                    time_elapsed = 2, timestamp = 12\<rparr>,
           events =
             [SetStatus (ActiveStatus ''M: hi, H: A, P: 0, T: 0.00''),
              SetStatus (ActiveStatus ''''),
              LogInfo \<lparr>message = ''hi'', holder = ''A'', times_passed = 1,
                       time_elapsed = 1, timestamp = 11\<rparr>,
              SetStatus (ActiveStatus ''M: hi, H: A, P: 1, T: 1.00''),
              SetStatus (ActiveStatus ''''),
              LogInfo \<lparr>message = ''hi'', holder = ''C'', times_passed = 2,
                       time_elapsed = 2, timestamp = 12\<rparr>],
           frames = 2\<rparr>"
    by code_simp
  show ?thesis
    using h forward_returned_holder [OF h, of "\<lparr>message = ''hi'', holder = ''C'',
      times_passed = 2, time_elapsed = 2, timestamp = 12\<rparr>"]
    by simp
qed

text \<open>
  C9. The statuses have the formats of the source. When the termination check holds,
  the only event is the status
  \<^verbatim>\<open>Maximum passes reached. Time to completion is <time_elapsed, 2 decimals> seconds.\<close>
  Otherwise, when this unit holds the token, the first event is the status
  \<^verbatim>\<open>M: <message>, H: <holder>, P: <times_passed>, T: <time_elapsed, 2 decimals>\<close>, with the
  fields of the token as received; and when the hop is made, the sleep (for a positive
  delay only) and then the status with the empty message follow, before the token is
  logged.
\<close>

theorem status_formats:
  "(limit_reached token name max_passes \<longrightarrow>
      map_option events (forward env token peers name delay max_passes) =
        Some [SetStatus (ActiveStatus
               (''Maximum passes reached. Time to completion is '' @
                fmt2 (time_elapsed token) @ '' seconds.''))]) \<and>
   (\<not> limit_reached token name max_passes \<longrightarrow> holder token = name \<longrightarrow>
      (\<forall>out. forward env token peers name delay max_passes = Some out \<longrightarrow>
         prefix [SetStatus (ActiveStatus
                   (''M: '' @ message token @ '', H: '' @ holder token @
                    '', P: '' @ str_int (times_passed token) @
                    '', T: '' @ fmt2 (time_elapsed token)))]
                (events out))) \<and>
   (\<not> limit_reached token name max_passes \<longrightarrow> holder token = name \<longrightarrow> peers \<noteq> [] \<longrightarrow>
      (\<forall>out. forward ((r, now) # env) token peers name delay max_passes = Some out \<longrightarrow>
         prefix ([SetStatus (ActiveStatus
                    (''M: '' @ message token @ '', H: '' @ holder token @
                     '', P: '' @ str_int (times_passed token) @
                     '', T: '' @ fmt2 (time_elapsed token)))] @
                 (if delay > 0 then [Sleep delay] else []) @
                 [SetStatus (ActiveStatus ''''), LogInfo (hop token peers r now)])
                (events out)))"
proof (intro conjI impI allI)
  assume "limit_reached token name max_passes"
  then show "map_option events (forward env token peers name delay max_passes) =
        Some [SetStatus (ActiveStatus
               (''Maximum passes reached. Time to completion is '' @
                fmt2 (time_elapsed token) @ '' seconds.''))]"
    by (simp add: forward.simps completion_status_def)
next
  fix out
  assume "\<not> limit_reached token name max_passes" "holder token = name"
    "forward env token peers name delay max_passes = Some out"
  then show "prefix [SetStatus (ActiveStatus
                   (''M: '' @ message token @ '', H: '' @ holder token @
                    '', P: '' @ str_int (times_passed token) @
                    '', T: '' @ fmt2 (time_elapsed token)))]
                (events out)"
    by (subst (asm) forward.simps)
       (auto simp: Let_def hop_events_def holding_status_def
             split: if_splits option.splits list.splits)
next
  fix out
  assume "\<not> limit_reached token name max_passes" "holder token = name" "peers \<noteq> []"
    "forward ((r, now) # env) token peers name delay max_passes = Some out"
  then show "prefix ([SetStatus (ActiveStatus
                    (''M: '' @ message token @ '', H: '' @ holder token @
                     '', P: '' @ str_int (times_passed token) @
                     '', T: '' @ fmt2 (time_elapsed token)))] @
                 (if delay > 0 then [Sleep delay] else []) @
                 [SetStatus (ActiveStatus ''''), LogInfo (hop token peers r now)])
                (events out)"
    by (auto simp: forward_unfold_hop hop_events_def holding_status_def
             split: if_splits option.splits)
qed

theorem status_formats_witness:
  "limit_reached \<lparr>message = ''hi'', holder = ''A'', times_passed = 3, time_elapsed = 3 / 2,
                   timestamp = 10\<rparr> ''A'' (Some 3) \<and>
   map_option events
     (forward [] \<lparr>message = ''hi'', holder = ''A'', times_passed = 3, time_elapsed = 3 / 2,
                  timestamp = 10\<rparr> [''A'', ''B''] ''A'' 2 (Some 3)) =
     Some [SetStatus (ActiveStatus
            ''Maximum passes reached. Time to completion is 1.50 seconds.'')] \<and>
   \<not> limit_reached \<lparr>message = ''hi'', holder = ''A'', times_passed = 0, time_elapsed = 1 / 8,
                     timestamp = 10\<rparr> ''A'' (Some 3) \<and>
   holder \<lparr>message = ''hi'', holder = ''A'', times_passed = 0, time_elapsed = 1 / 8,
            timestamp = 10\<rparr> = ''A'' \<and>
   [''A'', ''B''] \<noteq> [] \<and>
   forward [(1, 11), (1, 11)]
     \<lparr>message = ''hi'', holder = ''A'', times_passed = 0, time_elapsed = 1 / 8,
      timestamp = 10\<rparr> [''A'', ''B''] ''A'' 2 (Some 3) =
     Some \<lparr>result = Inr (Some \<lparr>message = ''hi'', holder = ''B'', times_passed = 1,
                               time_elapsed = 9 / 8, timestamp = 11\<rparr>),
           final = \<lparr>message = ''hi'', holder = ''B'', times_passed = 1,
                    time_elapsed = 9 / 8, timestamp = 11\<rparr>,
           events =
             [SetStatus (ActiveStatus ''M: hi, H: A, P: 0, T: 0.12''),
              Sleep 2,
              SetStatus (ActiveStatus ''''),
              LogInfo \<lparr>message = ''hi'', holder = ''B'', times_passed = 1,
                       time_elapsed = 9 / 8, timestamp = 11\<rparr>],
           frames = 1\<rparr> \<and>
   prefix [SetStatus (ActiveStatus
             (''M: '' @ ''hi'' @ '', H: '' @ ''A'' @ '', P: '' @ str_int 0 @
              '', T: '' @ fmt2 (1 / 8)))]
          [SetStatus (ActiveStatus ''M: hi, H: A, P: 0, T: 0.12''),
           Sleep 2,
           SetStatus (ActiveStatus ''''),
           LogInfo \<lparr>message = ''hi'', holder = ''B'', times_passed = 1,
                    time_elapsed = 9 / 8, timestamp = 11\<rparr>] \<and>
   prefix ([SetStatus (ActiveStatus
              (''M: '' @ ''hi'' @ '', H: '' @ ''A'' @ '', P: '' @ str_int 0 @
               '', T: '' @ fmt2 (1 / 8)))] @
           [Sleep 2] @
           [SetStatus (ActiveStatus ''''),
            LogInfo \<lparr>message = ''hi'', holder = ''B'', times_passed = 1,
                     time_elapsed = 9 / 8, timestamp = 11\<rparr>])
          [SetStatus (ActiveStatus ''M: hi, H: A, P: 0, T: 0.12''),
           Sleep 2,
           SetStatus (ActiveStatus ''''),
           LogInfo \<lparr>message = ''hi'', holder = ''B'', times_passed = 1,
                    time_elapsed = 9 / 8, timestamp = 11\<rparr>]"
proof -
  let ?t = "\<lparr>message = ''hi'', holder = ''A'', times_passed = 0, time_elapsed = 1 / 8,
             timestamp = 10\<rparr>"
  have h: "forward [(1, 11), (1, 11)] ?t [''A'', ''B''] ''A'' 2 (Some 3) =
     Some \<lparr>result = Inr (Some \<lparr>message = ''hi'', holder = ''B'', times_passed = 1,
                               time_elapsed = 9 / 8, timestamp = 11\<rparr>),
           final = \<lparr>message = ''hi'', holder = ''B'', times_passed = 1,
                    time_elapsed = 9 / 8, timestamp = 11\<rparr>,
           events =
             [SetStatus (ActiveStatus ''M: hi, H: A, P: 0, T: 0.12''),
              Sleep 2,
              SetStatus (ActiveStatus ''''),
              LogInfo \<lparr>message = ''hi'', holder = ''B'', times_passed = 1,
                       time_elapsed = 9 / 8, timestamp = 11\<rparr>],
           frames = 1\<rparr>"
    by code_simp
  have hp: "hop ?t [''A'', ''B''] 1 11 =
     \<lparr>message = ''hi'', holder = ''B'', times_passed = 1, time_elapsed = 9 / 8,
      timestamp = 11\<rparr>"
    by code_simp
  have f: "fmt2 (3 / 2) = ''1.50''" by code_simp
  show ?thesis
    using status_formats
        [of "\<lparr>message = ''hi'', holder = ''A'', times_passed = 3, time_elapsed = 3 / 2,
              timestamp = 10\<rparr>" "''A''" "Some 3" "[]" "[''A'', ''B'']" 2 1 11]
      status_formats [of ?t "''A''" "Some 3" "[(1, 11), (1, 11)]" "[''A'', ''B'']" 2 1 11]
      status_formats [of ?t "''A''" "Some 3" "[(1, 11)]" "[''A'', ''B'']" 2 1 11] h hp f
    by (simp add: limit_reached_def)
qed

end
